theory Spec2Isabelle
  imports Complex_Main "HOL-Library.Word" "HOL-Library.Sublist"
begin

section \<open>JavaScript strings\<close>

text \<open>
  A JavaScript string is a sequence of 16-bit code units; \<open>s.length\<close> counts code
  units, \<open>s[i]\<close> reads one, and a regular expression without the \<open>u\<close> flag matches
  code unit by code unit. All the character classes used by the sources lie in the
  basic multilingual plane, so a code unit is compared with the class bounds directly.
\<close>

type_synonym jschar = "16 word"
type_synonym jsstring = "jschar list"

definition ascii :: "string \<Rightarrow> jsstring" where
  "ascii s = map (\<lambda>c. of_nat (of_char c)) s"

abbreviation LF :: jschar where "LF \<equiv> 0x0A"
abbreviation HASH :: jschar where "HASH \<equiv> 0x23"

text \<open>
  The class \<open>\s\<close> of regular expressions and the characters removed by
  \<open>String.prototype.trim\<close>: WhiteSpace and LineTerminator of ECMAScript (TAB, LF, VT,
  FF, CR, SP, NBSP, U+1680, U+2000..U+200A, LS, PS, U+202F, U+205F, U+3000, BOM).
\<close>

definition isWhiteSpace :: "jschar \<Rightarrow> bool" where
  "isWhiteSpace c \<longleftrightarrow>
     (0x09 \<le> c \<and> c \<le> 0x0D) \<or> c = 0x20 \<or> c = 0xA0 \<or> c = 0x1680 \<or>
     (0x2000 \<le> c \<and> c \<le> 0x200A) \<or> c = 0x2028 \<or> c = 0x2029 \<or> c = 0x202F \<or>
     c = 0x205F \<or> c = 0x3000 \<or> c = 0xFEFF"

definition isDigit :: "jschar \<Rightarrow> bool" where
  "isDigit c \<longleftrightarrow> 0x30 \<le> c \<and> c \<le> 0x39"

definition trim :: "jsstring \<Rightarrow> jsstring" where
  "trim s = rev (dropWhile isWhiteSpace (rev (dropWhile isWhiteSpace s)))"

text \<open>
  \<open>s.split('\n')\<close>: the pieces between line feeds, in order; a text with \<open>n\<close> line feeds
  has \<open>n + 1\<close> pieces and the empty text has the single piece \<open>''\<close>. \<open>cur\<close> is the
  piece being read.
\<close>

fun split_from :: "jsstring \<Rightarrow> jsstring \<Rightarrow> jsstring list" where
  "split_from cur [] = [cur]"
| "split_from cur (c # cs) =
     (if c = LF then cur # split_from [] cs else split_from (cur @ [c]) cs)"

definition split_lines :: "jsstring \<Rightarrow> jsstring list" where
  "split_lines s = split_from [] s"

section \<open>Paginator and heading indexer (views/Reader.tsx, processContent)\<close>

record TocItem =
  title :: jsstring
  pageIndex :: nat
  level :: nat

definition CHARS_PER_PAGE :: nat where
  "CHARS_PER_PAGE = 1200"

text \<open>The placeholder page pushed when no page was produced (four CJK characters).\<close>

definition placeholder :: jsstring where
  "placeholder = [0x6682, 0x65E0, 0x5185, 0x5BB9]"

subsection \<open>The heading pattern\<close>

text \<open>
  \<^verbatim>\<open>/^(#{1,6}\s+|<DI>[0-9<numerals>]+[<marks>]|Chapter\s+\d+)/i\<close>, tested on the trimmed
  line, where \<open><DI>\<close> is U+7B2C, the numerals are the digits and U+96F6, U+4E00,
  U+4E8C, U+4E09, U+56DB, U+4E94, U+516D, U+4E03, U+516B, U+4E5D, U+5341, U+767E,
  U+5343, and the marks are U+7AE0, U+56DE, U+8282, U+5377. The three alternatives are
  anchored at the start of the string. In each, the greedy repetition and the token
  after it are disjoint classes, so backtracking never finds a match that the longest
  repetition misses. The flag \<open>i\<close> only affects the letters of \<open>Chapter\<close>: without the
  \<open>u\<close> flag no character outside ASCII is folded onto an ASCII letter.
\<close>

definition atx_header :: "jsstring \<Rightarrow> bool" where
  "atx_header t =
     (let k = length (takeWhile (\<lambda>c. c = HASH) t)
      in 1 \<le> k \<and> k \<le> 6 \<and> (case drop k t of [] \<Rightarrow> False | c # _ \<Rightarrow> isWhiteSpace c))"

definition isChapterNumeral :: "jschar \<Rightarrow> bool" where
  "isChapterNumeral c \<longleftrightarrow>
     isDigit c \<or> c = 0x96F6 \<or> c = 0x4E00 \<or> c = 0x4E8C \<or> c = 0x4E09 \<or> c = 0x56DB \<or>
     c = 0x4E94 \<or> c = 0x516D \<or> c = 0x4E03 \<or> c = 0x516B \<or> c = 0x4E5D \<or> c = 0x5341 \<or>
     c = 0x767E \<or> c = 0x5343"

definition isChapterMark :: "jschar \<Rightarrow> bool" where
  "isChapterMark c \<longleftrightarrow> c = 0x7AE0 \<or> c = 0x56DE \<or> c = 0x8282 \<or> c = 0x5377"

definition cjk_chapter :: "jsstring \<Rightarrow> bool" where
  "cjk_chapter t =
     (case t of
        [] \<Rightarrow> False
      | c # r \<Rightarrow>
          c = 0x7B2C \<and> takeWhile isChapterNumeral r \<noteq> [] \<and>
          (case dropWhile isChapterNumeral r of [] \<Rightarrow> False | m # _ \<Rightarrow> isChapterMark m))"

text \<open>A pattern letter matches itself in either case.\<close>

definition letter_ci :: "jschar \<Rightarrow> jschar \<Rightarrow> bool" where
  "letter_ci p c \<longleftrightarrow> c = p \<or> c = p + 0x20"

definition chapter_word :: "jsstring \<Rightarrow> bool" where
  "chapter_word t =
     (length t \<ge> 7 \<and> list_all2 letter_ci (ascii ''CHAPTER'') (take 7 t) \<and>
      takeWhile isWhiteSpace (drop 7 t) \<noteq> [] \<and>
      (case dropWhile isWhiteSpace (drop 7 t) of [] \<Rightarrow> False | d # _ \<Rightarrow> isDigit d))"

definition headerRegex_test :: "jsstring \<Rightarrow> bool" where
  "headerRegex_test t \<longleftrightarrow> atx_header t \<or> cjk_chapter t \<or> chapter_word t"

text \<open>
  \<^verbatim>\<open>line.startsWith('#') ? line.match(/^#+/)?.[0].length || 1 : 1\<close>, on the line as it
  is (not trimmed).
\<close>

definition header_level :: "jsstring \<Rightarrow> nat" where
  "header_level line =
     (case line of
        [] \<Rightarrow> 1
      | c # _ \<Rightarrow>
          if c = HASH
          then (let n = length (takeWhile (\<lambda>c. c = HASH) line) in if n = 0 then 1 else n)
          else 1)"

text \<open>
  \<^verbatim>\<open>line.replace(/^[#\s]+/, '').trim()\<close>, then cut to 20 code units followed by
  three dots when longer.
\<close>

definition header_title :: "jsstring \<Rightarrow> jsstring" where
  "header_title line = trim (dropWhile (\<lambda>c. c = HASH \<or> isWhiteSpace c) line)"

definition toc_title :: "jsstring \<Rightarrow> jsstring" where
  "toc_title t = (if length t > 20 then take 20 t @ ascii ''...'' else t)"

subsection \<open>The loop over the lines\<close>

text \<open>
  The variables of \<open>processContent\<close>; \<open>pageCounter\<close> is the source's variable
  \<open>pageIndex\<close> (the name is taken by the field of \<open>TocItem\<close>).

  The test \<^verbatim>\<open>currentLength > CHARS_PER_PAGE * 0.8\<close> compares an integer with a
  product of doubles. The product is written here over the rationals: for a budget
  below \<open>2^49\<close> the rounded product lies strictly between the same two integers as the
  exact one, or is the exact integer, so the comparison with an integer agrees (for
  1200 the double product is exactly 960).
\<close>

record paginator =
  newPages :: "jsstring list"
  currentChunk :: jsstring
  currentLength :: nat
  tempToc :: "TocItem list"
  pageCounter :: nat

definition paginator_init :: paginator where
  "paginator_init =
     \<lparr>newPages = [], currentChunk = [], currentLength = 0, tempToc = [], pageCounter = 0\<rparr>"

definition targetPage :: "nat \<Rightarrow> paginator \<Rightarrow> nat" where
  "targetPage budget s =
     (if (of_nat (currentLength s) :: rat) > of_nat budget * (8 / 10)
      then pageCounter s + 1 else pageCounter s)"

definition record_heading :: "nat \<Rightarrow> paginator \<Rightarrow> jsstring \<Rightarrow> TocItem list" where
  "record_heading budget s line =
     (if headerRegex_test (trim line)
      then tempToc s @
             [\<lparr>title = toc_title (header_title line),
               pageIndex = targetPage budget s,
               level = header_level line\<rparr>]
      else tempToc s)"

definition process_line :: "nat \<Rightarrow> paginator \<Rightarrow> jsstring \<Rightarrow> paginator" where
  "process_line budget s line =
     (let toc' = record_heading budget s line;
          chunk' = currentChunk s @ line @ [LF];
          length' = currentLength s + length line
      in if length' > budget
         then \<lparr>newPages = newPages s @ [chunk'], currentChunk = [], currentLength = 0,
               tempToc = toc', pageCounter = pageCounter s + 1\<rparr>
         else \<lparr>newPages = newPages s, currentChunk = chunk', currentLength = length',
               tempToc = toc', pageCounter = pageCounter s\<rparr>)"

definition run_lines :: "nat \<Rightarrow> jsstring list \<Rightarrow> paginator" where
  "run_lines budget ls = foldl (process_line budget) paginator_init ls"

text \<open>After the loop: the last chunk is pushed unless blank, then the placeholder.\<close>

definition final_pages :: "paginator \<Rightarrow> jsstring list" where
  "final_pages s =
     (let ps = (if trim (currentChunk s) \<noteq> [] then newPages s @ [currentChunk s]
                else newPages s)
      in if length ps = 0 then [placeholder] else ps)"

text \<open>
  The number of pages there will be if the loop stops in state \<open>s\<close>, the placeholder
  apart: the pages pushed so far, and one more when the chunk is not blank.
\<close>

definition pages_due :: "paginator \<Rightarrow> nat" where
  "pages_due s = pageCounter s + (if trim (currentChunk s) = [] then 0 else 1)"

text \<open>The sum of the lengths of the lines of a chunk: its length without the line feeds.\<close>

definition raw_length :: "jsstring \<Rightarrow> nat" where
  "raw_length p = length (filter (\<lambda>c. c \<noteq> LF) p)"

definition paginate_lines :: "nat \<Rightarrow> jsstring list \<Rightarrow> jsstring list \<times> TocItem list" where
  "paginate_lines budget ls = (let s = run_lines budget ls in (final_pages s, tempToc s))"

definition paginate :: "nat \<Rightarrow> jsstring \<Rightarrow> jsstring list \<times> TocItem list" where
  "paginate budget content = paginate_lines budget (split_lines content)"

definition processContent :: "jsstring \<Rightarrow> jsstring list \<times> TocItem list" where
  "processContent content = paginate CHARS_PER_PAGE content"

subsection \<open>Jumping to an entry (views/Reader.tsx, handlePageChange)\<close>

text \<open>
  Page numbers shown to the reader start at 1. \<open>handlePageChange\<close> sets the current
  page when the new page number is within \<open>1..pages.length\<close> and does nothing
  otherwise (the scrolling is left out). The button of an entry of the table of
  contents calls it with \<open>item.pageIndex + 1\<close>.
\<close>

definition handlePageChange :: "jsstring list \<Rightarrow> nat \<Rightarrow> nat \<Rightarrow> nat" where
  "handlePageChange pages currentPage newPage =
     (if newPage \<ge> 1 \<and> newPage \<le> length pages then newPage else currentPage)"

definition toc_onClick :: "jsstring list \<Rightarrow> nat \<Rightarrow> TocItem \<Rightarrow> nat" where
  "toc_onClick pages currentPage item = handlePageChange pages currentPage (pageIndex item + 1)"

section \<open>PDF layout extractor (services/pdf.ts, extractTextFromPdf)\<close>

text \<open>
  A text run as pdf.js delivers it: its string and, when the item has a transform, the
  vertical translation \<open>transform[5]\<close>. Coordinates are JavaScript numbers, that is
  IEEE 754 doubles. A finite double is a rational number, and the model holds the
  baselines as rationals; the comparisons of the source are then exact. The
  subtraction \<open>lastY - currentY\<close> is the exact difference rounded to the nearest
  double, ties to even: \<open>double\<close> below. NaN is not modelled, and a difference beyond
  the largest double stays finite here, which takes the same branch as the infinity
  of the source.
\<close>

text \<open>The number of binary digits of a positive integer.\<close>

function bit_length :: "int \<Rightarrow> int" where
  "bit_length k = (if k \<le> 0 then 0 else 1 + bit_length (k div 2))"
  by auto
termination
  by (relation "measure nat") auto

definition pow2 :: "int \<Rightarrow> rat" where
  "pow2 k = (if k \<ge> 0 then 2 ^ nat k else 1 / 2 ^ nat (- k))"

text \<open>For \<open>x \<noteq> 0\<close>, the exponent \<open>e\<close> with \<open>2^e \<le> |x| < 2^(e+1)\<close>.\<close>

definition binary_exponent :: "rat \<Rightarrow> int" where
  "binary_exponent x =
     (let d = bit_length (fst (quotient_of \<bar>x\<bar>)) - bit_length (snd (quotient_of \<bar>x\<bar>))
      in if pow2 d \<le> \<bar>x\<bar> then d else d - 1)"

definition round_half_even :: "rat \<Rightarrow> int" where
  "round_half_even y =
     (let f = \<lfloor>y\<rfloor>; r = y - of_int f
      in if r < 1 / 2 then f else if r > 1 / 2 then f + 1
         else if even f then f else f + 1)"

text \<open>
  The nearest double: a multiple of \<open>2^(e-52)\<close>, or of \<open>2^(-1074)\<close> in the
  subnormal range.
\<close>

definition double :: "rat \<Rightarrow> rat" where
  "double x =
     (if x = 0 then 0
      else let k = max (binary_exponent x - 52) (- 1074)
           in of_int (round_half_even (x / pow2 k)) * pow2 k)"

abbreviation SP :: jschar where "SP \<equiv> 0x20"

record text_item =
  str :: jsstring
  transY :: "rat option"

record page_acc =
  pageText :: jsstring
  lastY :: rat

definition isCJK :: "jschar \<Rightarrow> bool" where
  "isCJK c \<longleftrightarrow>
     (0x3000 \<le> c \<and> c \<le> 0x303F) \<or> (0x4E00 \<le> c \<and> c \<le> 0x9FA5) \<or>
     (0xFF00 \<le> c \<and> c \<le> 0xFFEF)"

definition currentY :: "text_item \<Rightarrow> rat" where
  "currentY item = (case transY item of Some y \<Rightarrow> y | None \<Rightarrow> 0)"

text \<open>The body of the inner loop, for one item.\<close>

definition add_item :: "page_acc \<Rightarrow> text_item \<Rightarrow> page_acc" where
  "add_item a item =
     (if trim (str item) = [] then a
      else
        let t =
          (if lastY a \<noteq> - 9999
           then
             (let yDiff = double (lastY a - currentY item)
              in if yDiff > 8
                 then (if yDiff > 24 then pageText a @ [LF, LF] else pageText a @ [LF])
                 else if yDiff < - 8 then pageText a @ [SP]
                 else if length (pageText a) > 0
                 then
                   (let lastChar = last (pageText a); currChar = hd (str item)
                    in if \<not> isCJK lastChar \<and> \<not> isCJK currChar \<and> lastChar \<noteq> SP \<and>
                          lastChar \<noteq> LF
                       then pageText a @ [SP] else pageText a)
                 else pageText a)
           else pageText a)
        in \<lparr>pageText = t @ str item, lastY = currentY item\<rparr>)"

definition page_init :: page_acc where
  "page_init = \<lparr>pageText = [], lastY = - 9999\<rparr>"

definition run_items :: "text_item list \<Rightarrow> page_acc" where
  "run_items items = foldl add_item page_init items"

definition extractPageText :: "text_item list \<Rightarrow> jsstring" where
  "extractPageText items = pageText (run_items items)"

text \<open>
  What is put between two runs that follow each other on a page, in the words of the
  specification: by the vertical difference, then by the two boundary characters.
\<close>

definition run_separator :: "rat \<Rightarrow> jschar \<Rightarrow> jschar \<Rightarrow> jsstring" where
  "run_separator yDiff lastChar currChar =
     (if yDiff > 24 then [LF, LF]
      else if 8 < yDiff then [LF]
      else if yDiff < - 8 then [SP]
      else if \<not> isCJK lastChar \<and> \<not> isCJK currChar \<and> lastChar \<noteq> SP \<and> lastChar \<noteq> LF
      then [SP] else [])"

section \<open>EPUB spine extractor (services/ebookParser.ts, extractTextFromEpub)\<close>

text \<open>
  The archive and the XML documents are read through JSZip and DOMParser. The model
  takes what they return: the archive as a partial map from entry names to entry
  texts (\<open>None\<close> for the whole archive when \<open>JSZip.loadAsync\<close> rejects), and the
  platform functions the extractor calls as the fields of \<open>epub_platform\<close>. An
  attribute that is absent is \<open>None\<close>. \<open>decodeURIComponent\<close> throws URIError on a
  malformed escape: \<open>None\<close>.
\<close>

record manifest_item =
  item_id :: "jsstring option"
  item_href :: "jsstring option"

record opf_document =
  opf_manifest :: "manifest_item list option"
  opf_spine :: "jsstring option list option"

record epub_platform =
  container_full_path :: "jsstring \<Rightarrow> jsstring option"
  parse_opf :: "jsstring \<Rightarrow> opf_document"
  stripHtml :: "jsstring \<Rightarrow> jsstring"
  decodeURIComponent :: "jsstring \<Rightarrow> jsstring option"

type_synonym archive = "jsstring \<Rightarrow> jsstring option"

datatype epub_error =
  ZipLoadFailed | MissingContainer | MissingOpfPath | MissingOpfFile |
  NoSpineElement | NoManifestElement | MalformedURI | EpubContentEmpty

datatype console_entry =
  EpubParsingFailed epub_error | MobiParsingFailed |
  EncodingIssueDetected | GbkDecodingFailed

text \<open>An optional string in a condition: absent and empty are both false.\<close>

fun truthy :: "jsstring option \<Rightarrow> bool" where
  "truthy None = False"
| "truthy (Some s) = (s \<noteq> [])"

text \<open>\<^verbatim>\<open>opfPath.substring(0, opfPath.lastIndexOf('/') + 1)\<close>\<close>

definition opf_dir :: "jsstring \<Rightarrow> jsstring" where
  "opf_dir opfPath = rev (dropWhile (\<lambda>c. c \<noteq> 0x2F) (rev opfPath))"

text \<open>
  The loop over the itemrefs, \<open>fullText\<close> as accumulator. The manifest element is
  only dereferenced for an itemref that has an idref; a missing manifest is a
  TypeError there.
\<close>

fun spine_loop ::
  "epub_platform \<Rightarrow> archive \<Rightarrow> jsstring \<Rightarrow> manifest_item list option \<Rightarrow>
   jsstring option list \<Rightarrow> jsstring \<Rightarrow> epub_error + jsstring" where
  "spine_loop P entry opfDir manifest [] fullText = Inr fullText"
| "spine_loop P entry opfDir manifest (idref # itemrefs) fullText =
     (if \<not> truthy idref then spine_loop P entry opfDir manifest itemrefs fullText
      else
        case manifest of
          None \<Rightarrow> Inl NoManifestElement
        | Some items \<Rightarrow>
            (case find (\<lambda>i. item_id i = idref) items of
               None \<Rightarrow> spine_loop P entry opfDir manifest itemrefs fullText
             | Some item \<Rightarrow>
                 if \<not> truthy (item_href item)
                 then spine_loop P entry opfDir manifest itemrefs fullText
                 else
                   (case decodeURIComponent P (opfDir @ the (item_href item)) of
                      None \<Rightarrow> Inl MalformedURI
                    | Some fileKey \<Rightarrow>
                        if truthy (entry fileKey)
                        then spine_loop P entry opfDir manifest itemrefs
                               (fullText @ stripHtml P (the (entry fileKey)) @ [LF, LF])
                        else spine_loop P entry opfDir manifest itemrefs fullText)))"

definition epub_body :: "epub_platform \<Rightarrow> archive option \<Rightarrow> epub_error + jsstring" where
  "epub_body P file =
     (case file of
        None \<Rightarrow> Inl ZipLoadFailed
      | Some entry \<Rightarrow>
          if \<not> truthy (entry (ascii ''META-INF/container.xml'')) then Inl MissingContainer
          else
            let opfPath = container_full_path P (the (entry (ascii ''META-INF/container.xml'')))
            in if \<not> truthy opfPath then Inl MissingOpfPath
               else if \<not> truthy (entry (the opfPath)) then Inl MissingOpfFile
               else
                 let opfDoc = parse_opf P (the (entry (the opfPath)))
                 in case opf_spine opfDoc of
                      None \<Rightarrow> Inl NoSpineElement
                    | Some itemrefs \<Rightarrow>
                        (case spine_loop P entry (opf_dir (the opfPath)) (opf_manifest opfDoc)
                                itemrefs [] of
                           Inl e \<Rightarrow> Inl e
                         | Inr fullText \<Rightarrow>
                             if trim fullText = [] then Inl EpubContentEmpty
                             else Inr fullText))"

text \<open>
  The \<open>try\<close>/\<open>catch\<close> around the body: every failure is written to the console and
  thrown again as one error. Nothing else is written to the console.
\<close>

definition extractTextFromEpub ::
  "epub_platform \<Rightarrow> archive option \<Rightarrow> console_entry list \<times> (epub_error + jsstring)" where
  "extractTextFromEpub P file =
     (case epub_body P file of
        Inl e \<Rightarrow> ([EpubParsingFailed e], Inl e)
      | Inr fullText \<Rightarrow> ([], Inr fullText))"

text \<open>
  The spine in the words of the specification: the content document an itemref
  resolves to, if it resolves to one, and the text of the book, which is the text of
  the resolved documents in the order of the spine, each followed by two line feeds.
\<close>

definition spine_document ::
  "epub_platform \<Rightarrow> archive \<Rightarrow> jsstring \<Rightarrow> manifest_item list \<Rightarrow> jsstring option \<Rightarrow>
   jsstring option" where
  "spine_document P entry opfDir items idref =
     (if \<not> truthy idref then None
      else
        case find (\<lambda>i. item_id i = idref) items of
          None \<Rightarrow> None
        | Some item \<Rightarrow>
            if \<not> truthy (item_href item) then None
            else
              (case decodeURIComponent P (opfDir @ the (item_href item)) of
                 None \<Rightarrow> None
               | Some fileKey \<Rightarrow> if truthy (entry fileKey) then entry fileKey else None))"

definition spine_text ::
  "epub_platform \<Rightarrow> archive \<Rightarrow> jsstring \<Rightarrow> manifest_item list \<Rightarrow> jsstring option list \<Rightarrow>
   jsstring" where
  "spine_text P entry opfDir items itemrefs =
     concat (map (\<lambda>d. stripHtml P d @ [LF, LF])
       (List.map_filter (spine_document P entry opfDir items) itemrefs))"

text \<open>
  Every path that the loop hands to \<open>decodeURIComponent\<close> can be decoded: the paths
  of the itemrefs that have an idref, a manifest item and an href. The hrefs of
  manifest items that the spine does not name play no part.
\<close>

definition spine_hrefs_decode ::
  "epub_platform \<Rightarrow> jsstring \<Rightarrow> manifest_item list \<Rightarrow> jsstring option list \<Rightarrow> bool" where
  "spine_hrefs_decode P opfDir items itemrefs =
     list_all
       (\<lambda>idref.
          \<not> truthy idref \<or>
          (case find (\<lambda>i. item_id i = idref) items of
             None \<Rightarrow> True
           | Some item \<Rightarrow>
               \<not> truthy (item_href item) \<or>
               decodeURIComponent P (opfDir @ the (item_href item)) \<noteq> None))
       itemrefs"

text \<open>
  A small book: the package document is \<open>OEBPS/content.opf\<close>; the manifest declares
  \<open>c3\<close>, \<open>c2\<close>, \<open>c1\<close> in this order and the spine lists \<open>c1\<close>, \<open>c2\<close>, \<open>c3\<close>; the
  archive has the entries of \<open>c1\<close> and \<open>c3\<close> but none for \<open>c2\<close>. Content documents
  are plain text here, which markup stripping leaves as it is, and no path has an
  escape.
\<close>

definition example_platform :: epub_platform where
  "example_platform =
     \<lparr>container_full_path = (\<lambda>_. Some (ascii ''OEBPS/content.opf'')),
      parse_opf = (\<lambda>_.
        \<lparr>opf_manifest = Some
           [\<lparr>item_id = Some (ascii ''c3''), item_href = Some (ascii ''c3.html'')\<rparr>,
            \<lparr>item_id = Some (ascii ''c2''), item_href = Some (ascii ''c2.html'')\<rparr>,
            \<lparr>item_id = Some (ascii ''c1''), item_href = Some (ascii ''c1.html'')\<rparr>],
         opf_spine = Some [Some (ascii ''c1''), Some (ascii ''c2''), Some (ascii ''c3'')]\<rparr>),
      stripHtml = (\<lambda>html. html),
      decodeURIComponent = Some\<rparr>"

definition example_archive :: archive where
  "example_archive name =
     (if name = ascii ''META-INF/container.xml'' then Some (ascii ''container'')
      else if name = ascii ''OEBPS/content.opf'' then Some (ascii ''package'')
      else if name = ascii ''OEBPS/c1.html'' then Some (ascii ''One'')
      else if name = ascii ''OEBPS/c3.html'' then Some (ascii ''Three'')
      else None)"

text \<open>
  The same book with a malformed escape in the href of \<open>c2\<close>, \<open>c%2.html\<close>:
  \<open>decodeURIComponent\<close> throws URIError on its path. The manifest also declares a
  cover that the spine does not name, whose href is malformed too.
\<close>

definition malformed_platform :: epub_platform where
  "malformed_platform =
     \<lparr>container_full_path = (\<lambda>_. Some (ascii ''OEBPS/content.opf'')),
      parse_opf = (\<lambda>_.
        \<lparr>opf_manifest = Some
           [\<lparr>item_id = Some (ascii ''cover''), item_href = Some (ascii ''cover%.jpg'')\<rparr>,
            \<lparr>item_id = Some (ascii ''c3''), item_href = Some (ascii ''c3.html'')\<rparr>,
            \<lparr>item_id = Some (ascii ''c2''), item_href = Some (ascii ''c%2.html'')\<rparr>,
            \<lparr>item_id = Some (ascii ''c1''), item_href = Some (ascii ''c1.html'')\<rparr>],
         opf_spine = Some [Some (ascii ''c1''), Some (ascii ''c2''), Some (ascii ''c3'')]\<rparr>),
      stripHtml = (\<lambda>html. html),
      decodeURIComponent = (\<lambda>path.
        if path = ascii ''OEBPS/c%2.html'' \<or> path = ascii ''OEBPS/cover%.jpg'' then None
        else Some path)\<rparr>"

section \<open>MOBI text extractor (services/ebookParser.ts, extractTextFromMobi)\<close>

text \<open>
  The pattern is a character class repeated at least 10 times, with the flag \<open>g\<close>.
  The class holds \<open>\w\<close>, \<open>\s\<close>, the ranges U+4E00..U+9FA5, U+3000..U+303F and
  U+FF00..U+FFEF, and the characters \<^verbatim>\<open>,.?!:;"'()<>[]-\<close>, LF and CR. The matches of
  \<open>rawText.match\<close> are the maximal runs of class characters that are at least 10
  long, in order.
\<close>

definition isWordChar :: "jschar \<Rightarrow> bool" where
  "isWordChar c \<longleftrightarrow>
     (0x41 \<le> c \<and> c \<le> 0x5A) \<or> (0x61 \<le> c \<and> c \<le> 0x7A) \<or> isDigit c \<or> c = 0x5F"

definition isReadable :: "jschar \<Rightarrow> bool" where
  "isReadable c \<longleftrightarrow>
     isWordChar c \<or> isWhiteSpace c \<or> (0x4E00 \<le> c \<and> c \<le> 0x9FA5) \<or>
     (0x3000 \<le> c \<and> c \<le> 0x303F) \<or> (0xFF00 \<le> c \<and> c \<le> 0xFFEF) \<or>
     c = 0x2C \<or> c = 0x2E \<or> c = 0x3F \<or> c = 0x21 \<or> c = 0x3A \<or> c = 0x3B \<or> c = 0x22 \<or>
     c = 0x27 \<or> c = 0x28 \<or> c = 0x29 \<or> c = 0x3C \<or> c = 0x3E \<or> c = 0x5B \<or> c = 0x5D \<or>
     c = 0x0A \<or> c = 0x0D \<or> c = 0x2D"

definition close_run :: "jsstring \<Rightarrow> jsstring list" where
  "close_run cur = (if length cur \<ge> 10 then [cur] else [])"

fun runs_from :: "jsstring \<Rightarrow> jsstring \<Rightarrow> jsstring list" where
  "runs_from cur [] = close_run cur"
| "runs_from cur (c # cs) =
     (if isReadable c then runs_from (cur @ [c]) cs else close_run cur @ runs_from [] cs)"

definition regex_matches :: "jsstring \<Rightarrow> jsstring list" where
  "regex_matches rawText = runs_from [] rawText"

text \<open>\<^verbatim>\<open>matches.join('\n')\<close>\<close>

fun join_LF :: "jsstring list \<Rightarrow> jsstring" where
  "join_LF [] = []"
| "join_LF [m] = m"
| "join_LF (m # ms) = m @ [LF] @ join_LF ms"

text \<open>
  \<^verbatim>\<open>extracted.replace(/<[^>]*>/g, '')\<close>: from a \<open><\<close>, everything up to the next \<open>>\<close>
  is removed; a \<open><\<close> with no \<open>>\<close> after it stays.
\<close>

function strip_tags :: "jsstring \<Rightarrow> jsstring" where
  "strip_tags [] = []"
| "strip_tags (c # cs) =
     (if c = 0x3C \<and> 0x3E \<in> set cs
      then strip_tags (tl (dropWhile (\<lambda>d. d \<noteq> 0x3E) cs))
      else c # strip_tags cs)"
  by pat_completeness auto
termination
proof (relation "measure length")
  fix c :: jschar and cs :: jsstring
  show "(tl (dropWhile (\<lambda>d. d \<noteq> 0x3E) cs), c # cs) \<in> measure length"
    using length_dropWhile_le [of "\<lambda>d. d \<noteq> 0x3E" cs] by simp
qed simp_all

text \<open>\<^verbatim>\<open>rawText.replace(/[^\x20-\x7E\n\r\t]/g, '')\<close>\<close>

definition isPrintableAscii :: "jschar \<Rightarrow> bool" where
  "isPrintableAscii c \<longleftrightarrow> (0x20 \<le> c \<and> c \<le> 0x7E) \<or> c = 0x0A \<or> c = 0x0D \<or> c = 0x09"

text \<open>The notice put before the extracted text (55 code units, ending in two LF).\<close>

definition mobi_notice :: jsstring where
  "mobi_notice =
     [0x3010, 0x6CE8, 0x610F, 0xFF1A, 0x004D, 0x004F, 0x0042, 0x0049, 0x0020, 0x683C,
      0x5F0F, 0x4F7F, 0x7528, 0x7EAF, 0x6587, 0x672C, 0x63D0, 0x53D6, 0x6A21, 0x5F0F,
      0xFF0C, 0x53EF, 0x80FD, 0x4F1A, 0x4E22, 0x5931, 0x90E8, 0x5206, 0x6392, 0x7248,
      0x683C, 0x5F0F, 0x3002, 0x5EFA, 0x8BAE, 0x4F7F, 0x7528, 0x0020, 0x0045, 0x0050,
      0x0055, 0x0042, 0x0020, 0x683C, 0x5F0F, 0x83B7, 0x5F97, 0x6700, 0x4F73, 0x4F53,
      0x9A8C, 0x3002, 0x3011, 0x000A, 0x000A]"

datatype mobi_error = MobiExtractionFailed

text \<open>
  \<open>rawText\<close> is the buffer decoded by \<open>TextDecoder('utf-8', {fatal: false})\<close>. Every
  error thrown in the body is caught, written to the console and replaced by the one
  MOBI error.
\<close>

definition mobi_body :: "jsstring \<Rightarrow> mobi_error + jsstring" where
  "mobi_body rawText =
     (let matches = regex_matches rawText
      in if length matches = 0
         then
           (let asciiText = filter isPrintableAscii rawText
            in if length asciiText > 100 then Inr asciiText else Inl MobiExtractionFailed)
         else Inr (mobi_notice @ strip_tags (join_LF matches)))"

definition extractTextFromMobi ::
  "('b \<Rightarrow> jsstring) \<Rightarrow> 'b \<Rightarrow> console_entry list \<times> (mobi_error + jsstring)" where
  "extractTextFromMobi utf8_decode buffer =
     (case mobi_body (utf8_decode buffer) of
        Inl e \<Rightarrow> ([MobiParsingFailed], Inl e)
      | Inr text \<Rightarrow> ([], Inr text))"

section \<open>Encoding resolver (views/Library.tsx, readTextFile)\<close>

text \<open>
  The two decoders are the platform's \<open>TextDecoder\<close>: the permissive UTF-8 one always
  returns a string; constructing or running the GB18030 one may throw (\<open>None\<close>).
  \<^verbatim>\<open>replacementCount > utf8Text.length * 0.01\<close> is written over the rationals, as
  the 80% test of the paginator is.
\<close>

definition replacementCount :: "jsstring \<Rightarrow> nat" where
  "replacementCount utf8Text = length (filter (\<lambda>c. c = 0xFFFD) utf8Text)"

definition readTextFile ::
  "('b \<Rightarrow> jsstring) \<Rightarrow> ('b \<Rightarrow> jsstring option) \<Rightarrow> 'b \<Rightarrow> console_entry list \<times> jsstring" where
  "readTextFile utf8_decode gb18030_decode buffer =
     (let utf8Text = utf8_decode buffer;
          n = replacementCount utf8Text
      in if n > 0 \<and> (of_nat n :: rat) > of_nat (length utf8Text) * (1 / 100)
         then
           (case gb18030_decode buffer of
              Some gbkText \<Rightarrow> ([EncodingIssueDetected], gbkText)
            | None \<Rightarrow> ([EncodingIssueDetected, GbkDecodingFailed], utf8Text))
         else ([], utf8Text))"

section \<open>Format dispatcher (views/Library.tsx, processFile)\<close>

definition MAX_FILE_SIZE :: nat where
  "MAX_FILE_SIZE = 50 * 1024 * 1024"

record File =
  file_size :: nat
  file_name :: jsstring
  file_type :: jsstring

datatype book_format = Txt | Md | Pdf | Epub | Mobi

text \<open>
  The four extractors are asynchronous functions of the file that return a string or
  throw; \<open>processFile\<close> is modelled over any four such functions. Generating the
  metadata and the cover comes after the text is accepted and may throw as well.
  Calling a service is an effect: the model returns, with the outcome, the services
  that were called, in order.
\<close>

datatype service_call = CallPdf | CallEpub | CallMobi | CallReadText | CallMetadata

record ('f, 'm) services =
  extractTextFromPdf :: "'f \<Rightarrow> jsstring + jsstring"
  extractEpub :: "'f \<Rightarrow> jsstring + jsstring"
  extractMobi :: "'f \<Rightarrow> jsstring + jsstring"
  readText :: "'f \<Rightarrow> jsstring + jsstring"
  generateMetadata :: "jsstring \<Rightarrow> jsstring + 'm"

record 'm book =
  content :: jsstring
  format :: book_format
  metadata :: 'm

datatype upload_error =
  Thrown jsstring
| EmptyContent

datatype 'm outcome =
  TooLarge nat
| UploadFailed upload_error
| Added "'m book"

text \<open>
  \<open>toLowerCase\<close> on the letters A to Z. The other code units are left as they are:
  none of them is mapped onto a letter of the four suffixes tested below.
\<close>

definition toLowerCase :: "jsstring \<Rightarrow> jsstring" where
  "toLowerCase s = map (\<lambda>c. if 0x41 \<le> c \<and> c \<le> 0x5A then c + 0x20 else c) s"

definition endsWith :: "jsstring \<Rightarrow> jsstring \<Rightarrow> bool" where
  "endsWith s x \<longleftrightarrow> suffix x s"

definition extract_text ::
  "('a File_scheme, 'm) services \<Rightarrow> 'a File_scheme \<Rightarrow>
   service_call \<times> (jsstring + (jsstring \<times> book_format))" where
  "extract_text S f =
     (let fileName = toLowerCase (file_name f)
      in if file_type f = ascii ''application/pdf'' \<or> endsWith fileName (ascii ''.pdf'')
         then (CallPdf, map_sum id (\<lambda>t. (t, Pdf)) (extractTextFromPdf S f))
         else if endsWith fileName (ascii ''.epub'')
         then (CallEpub, map_sum id (\<lambda>t. (t, Epub)) (extractEpub S f))
         else if endsWith fileName (ascii ''.mobi'')
         then (CallMobi, map_sum id (\<lambda>t. (t, Mobi)) (extractMobi S f))
         else (CallReadText,
               map_sum id (\<lambda>t. (t, if endsWith fileName (ascii ''.md'') then Md else Txt))
                 (readText S f)))"

definition processFile ::
  "('a File_scheme, 'm) services \<Rightarrow> 'a File_scheme \<Rightarrow> service_call list \<times> 'm outcome" where
  "processFile S f =
     (if file_size f > MAX_FILE_SIZE then ([], TooLarge (file_size f))
      else
        case extract_text S f of
          (c, Inl msg) \<Rightarrow> ([c], UploadFailed (Thrown msg))
        | (c, Inr (text, fmt)) \<Rightarrow>
            if trim text = [] then ([c], UploadFailed EmptyContent)
            else
              (case generateMetadata S (take 3000 text) of
                 Inl msg \<Rightarrow> ([c, CallMetadata], UploadFailed (Thrown msg))
               | Inr m \<Rightarrow>
                   ([c, CallMetadata],
                    Added \<lparr>content = text, format = fmt, metadata = m\<rparr>)))"

text \<open>
  Services for examples: every extractor returns the given text, and the metadata
  service succeeds. A file of a given size named \<open>book.txt\<close>, with no MIME type.
\<close>

definition example_services :: "jsstring \<Rightarrow> (File, unit) services" where
  "example_services text =
     \<lparr>extractTextFromPdf = (\<lambda>f. Inr text), extractEpub = (\<lambda>f. Inr text),
      extractMobi = (\<lambda>f. Inr text), readText = (\<lambda>f. Inr text),
      generateMetadata = (\<lambda>snippet. Inr ())\<rparr>"

definition example_file :: "nat \<Rightarrow> File" where
  "example_file n = \<lparr>file_size = n, file_name = ascii ''book.txt'', file_type = []\<rparr>"

section \<open>Properties of the paginator\<close>

subsection \<open>Trimming and splitting\<close>

lemma trim_Nil_iff: "trim s = [] \<longleftrightarrow> (\<forall>c\<in>set s. isWhiteSpace c)"
proof (cases "dropWhile isWhiteSpace s")
  case Nil
  then have "\<forall>c\<in>set s. isWhiteSpace c"
    by (simp only: dropWhile_eq_Nil_conv)
  moreover have "trim s = []"
    unfolding trim_def Nil by simp
  ultimately show ?thesis by simp
next
  case (Cons a as)
  then have a: "\<not> isWhiteSpace a"
    using hd_dropWhile [of isWhiteSpace s] by auto
  have "a \<in> set (rev (dropWhile isWhiteSpace s))"
    using Cons by simp
  with a have "dropWhile isWhiteSpace (rev (dropWhile isWhiteSpace s)) \<noteq> []"
    unfolding dropWhile_eq_Nil_conv by blast
  moreover have "a \<in> set s"
    using Cons set_dropWhileD [of a isWhiteSpace s] by simp
  ultimately show ?thesis using a by (auto simp: trim_def)
qed

lemma split_from_concat:
  "concat (map (\<lambda>l. l @ [LF]) (split_from cur cs)) = cur @ cs @ [LF]"
  by (induction cs arbitrary: cur) auto

lemma split_from_no_LF:
  "LF \<notin> set cur \<Longrightarrow> \<forall>l\<in>set (split_from cur cs). LF \<notin> set l"
proof (induction cs arbitrary: cur)
  case Nil
  then show ?case by simp
next
  case (Cons c cs)
  show ?case
    using Cons.IH [of "[]"] Cons.IH [of "cur @ [c]"] Cons.prems by auto
qed

lemma split_from_append_LF:
  "LF \<notin> set xs \<Longrightarrow> split_from cur (xs @ LF # rest) = (cur @ xs) # split_from [] rest"
  by (induction xs arbitrary: cur) auto

lemma split_from_single: "LF \<notin> set xs \<Longrightarrow> split_from cur xs = [cur @ xs]"
  by (induction xs arbitrary: cur) auto

lemma process_line_text:
  "concat (newPages (process_line b s l)) @ currentChunk (process_line b s l) =
   concat (newPages s) @ currentChunk s @ l @ [LF]"
  by (simp add: process_line_def Let_def)

lemma foldl_process_text:
  "concat (newPages (foldl (process_line b) s ls)) @ currentChunk (foldl (process_line b) s ls) =
   concat (newPages s) @ currentChunk s @ concat (map (\<lambda>l. l @ [LF]) ls)"
proof (induction ls arbitrary: s)
  case Nil
  show ?case by simp
next
  case (Cons l ls)
  show ?case
    using Cons.IH [of "process_line b s l"] process_line_text [of b s l]
    by simp
qed

lemma run_lines_text:
  "concat (newPages (run_lines b (split_lines t))) @ currentChunk (run_lines b (split_lines t)) = t @ [LF]"
  by (simp add: run_lines_def foldl_process_text split_lines_def split_from_concat paginator_init_def)

subsection \<open>The pages and the text\<close>

text \<open>
  C1, amended. The pages do not reconstruct the text exactly: every line gets a line
  feed appended, the last one included, and a blank last chunk is not pushed. What
  holds for every text and budget: the concatenation of the pages, followed by some
  blank remainder (the chunk that was dropped, possibly empty), is the text followed
  by one line feed; or the text is blank and the only page is the placeholder.
\<close>

theorem pages_concat_text:
  "(\<exists>rest. trim rest = [] \<and> concat (fst (paginate budget text)) @ rest = text @ [LF]) \<or>
   (fst (paginate budget text) = [placeholder] \<and> trim text = [])"
proof -
  define s where "s = run_lines budget (split_lines text)"
  have inv: "concat (newPages s) @ currentChunk s = text @ [LF]"
    unfolding s_def by (rule run_lines_text)
  have pg: "fst (paginate budget text) = final_pages s"
    by (simp add: paginate_def paginate_lines_def s_def Let_def)
  show ?thesis
  proof (cases "trim (currentChunk s) = []")
    case False
    then have "concat (final_pages s) @ [] = text @ [LF]"
      using inv by (simp add: final_pages_def Let_def)
    then show ?thesis unfolding pg
      by (intro disjI1 exI [of _ "[]"]) (simp add: trim_def)
  next
    case blank: True
    show ?thesis
    proof (cases "newPages s = []")
      case True
      with inv blank have "trim (text @ [LF]) = []" by simp
      then have "trim text = []" by (simp add: trim_Nil_iff)
      moreover have "final_pages s = [placeholder]"
        using True blank by (simp add: final_pages_def)
      ultimately show ?thesis unfolding pg by simp
    next
      case False
      then have "final_pages s = newPages s"
        using blank by (simp add: final_pages_def)
      with inv blank show ?thesis unfolding pg by auto
    qed
  qed
qed

text \<open>
  With budget 5 the text \<open>aaaaaa LF SP SP\<close> gives the single page \<open>aaaaaa LF\<close>; the
  blank chunk \<open>SP SP LF\<close> is dropped.
\<close>

theorem pages_concat_text_witness:
  "fst (paginate 5 (ascii ''aaaaaa'' @ [LF] @ ascii ''  '')) = [ascii ''aaaaaa'' @ [LF]] \<and>
   ((\<exists>rest. trim rest = [] \<and>
        concat (fst (paginate 5 (ascii ''aaaaaa'' @ [LF] @ ascii ''  ''))) @ rest =
        (ascii ''aaaaaa'' @ [LF] @ ascii ''  '') @ [LF]) \<or>
    (fst (paginate 5 (ascii ''aaaaaa'' @ [LF] @ ascii ''  '')) = [placeholder] \<and>
     trim (ascii ''aaaaaa'' @ [LF] @ ascii ''  '') = []))"
proof -
  have "fst (paginate 5 (ascii ''aaaaaa'' @ [LF] @ ascii ''  '')) = [ascii ''aaaaaa'' @ [LF]]"
    by code_simp
  from this pages_concat_text [of 5 "ascii ''aaaaaa'' @ [LF] @ ascii ''  ''"]
  show ?thesis by (rule conjI)
qed

text \<open>
  C1 as stated fails on the text \<open>a\<close>: the only page is \<open>a LF\<close>, one code unit
  longer than the text.
\<close>

theorem pages_concat_counterexample:
  "concat (fst (processContent (ascii ''a''))) \<noteq> ascii ''a''"
  by code_simp

subsection \<open>The table of contents\<close>

lemma headerRegex_nonempty: "headerRegex_test t \<Longrightarrow> t \<noteq> []"
  by (auto simp: headerRegex_test_def atx_header_def cjk_chapter_def chapter_word_def)

lemma trim_append_nonblank: "trim l \<noteq> [] \<Longrightarrow> trim (a @ l @ z) \<noteq> []"
  by (auto simp: trim_Nil_iff)

lemma trim_prefix_nonblank: "trim a \<noteq> [] \<Longrightarrow> trim (a @ z) \<noteq> []"
  by (auto simp: trim_Nil_iff)

lemma pages_due_step: "pages_due s \<le> pages_due (process_line b s l)"
  using trim_prefix_nonblank [of "currentChunk s" "l @ [LF]"]
  by (auto simp: pages_due_def process_line_def Let_def)

lemma pages_due_foldl: "pages_due s \<le> pages_due (foldl (process_line b) s ls)"
proof (induction ls arbitrary: s)
  case Nil
  show ?case by simp
next
  case (Cons l ls)
  show ?case
    using Cons.IH [of "process_line b s l"] pages_due_step [of s b l] by simp
qed

lemma pages_due_heading:
  assumes "headerRegex_test (trim l)"
  shows "pageCounter s + 1 \<le> pages_due (process_line b s l)"
proof -
  have "trim l \<noteq> []" using assms by (rule headerRegex_nonempty)
  then have "trim (currentChunk s @ l @ [LF]) \<noteq> []" by (rule trim_append_nonblank)
  then show ?thesis by (simp add: pages_due_def process_line_def Let_def)
qed

lemma tempToc_step: "tempToc (process_line b s l) = record_heading b s l"
  by (simp add: process_line_def Let_def)

lemma pageCounter_step: "pageCounter s \<le> pageCounter (process_line b s l)"
  by (simp add: process_line_def Let_def)

lemma targetPage_le: "targetPage b s \<le> pageCounter s + 1"
  by (simp add: targetPage_def)

lemma toc_bound_step:
  assumes "\<forall>e\<in>set (tempToc s). pageIndex e \<le> pages_due s"
  shows "\<forall>e\<in>set (tempToc (process_line b s l)). pageIndex e \<le> pages_due (process_line b s l)"
proof
  fix e assume e: "e \<in> set (tempToc (process_line b s l))"
  show "pageIndex e \<le> pages_due (process_line b s l)"
  proof (cases "e \<in> set (tempToc s)")
    case True
    then have "pageIndex e \<le> pages_due s" using assms by blast
    then show ?thesis using pages_due_step [of s b l] by simp
  next
    case False
    with e have h: "headerRegex_test (trim l)" and "pageIndex e = targetPage b s"
      by (auto simp: tempToc_step record_heading_def split: if_splits)
    then show ?thesis
      using pages_due_heading [OF h, of s b] targetPage_le [of b s] by simp
  qed
qed

lemma toc_bound_foldl:
  assumes "\<forall>e\<in>set (tempToc s). pageIndex e \<le> pages_due s"
  shows "\<forall>e\<in>set (tempToc (foldl (process_line b) s ls)).
           pageIndex e \<le> pages_due (foldl (process_line b) s ls)"
  using assms
proof (induction ls arbitrary: s)
  case Nil
  then show ?case by simp
next
  case (Cons l ls)
  show ?case
    using Cons.IH [OF toc_bound_step [OF Cons.prems, of b l]] by simp
qed

lemma newPages_count_step:
  "length (newPages s) = pageCounter s \<Longrightarrow>
   length (newPages (process_line b s l)) = pageCounter (process_line b s l)"
  by (simp add: process_line_def Let_def)

lemma newPages_count_foldl:
  "length (newPages s) = pageCounter s \<Longrightarrow>
   length (newPages (foldl (process_line b) s ls)) = pageCounter (foldl (process_line b) s ls)"
  by (induction ls arbitrary: s) (simp_all add: newPages_count_step)

lemma newPages_count_run: "length (newPages (run_lines b ls)) = pageCounter (run_lines b ls)"
  unfolding run_lines_def by (rule newPages_count_foldl) (simp add: paginator_init_def)

lemma final_pages_length:
  "length (newPages s) = pageCounter s \<Longrightarrow> pages_due s \<le> length (final_pages s)"
  by (cases "newPages s") (auto simp: final_pages_def pages_due_def Let_def)

lemma run_lines_append:
  "run_lines b (pre @ post) = foldl (process_line b) (run_lines b pre) post"
  by (simp add: run_lines_def)

lemma tempToc_foldl_prefix:
  "\<exists>ys. tempToc (foldl (process_line b) s ls) = tempToc s @ ys"
proof (induction ls arbitrary: s)
  case Nil
  show ?case by simp
next
  case (Cons l ls)
  obtain ys where "tempToc (foldl (process_line b) (process_line b s l) ls) =
      tempToc (process_line b s l) @ ys"
    using Cons.IH by blast
  moreover have "\<exists>zs. tempToc (process_line b s l) = tempToc s @ zs"
    by (simp add: tempToc_step record_heading_def)
  ultimately show ?case by auto
qed

lemma targetPage_nat:
  "targetPage b s = (if 5 * currentLength s > 4 * b then pageCounter s + 1 else pageCounter s)"
proof -
  have "(of_nat (currentLength s) :: rat) > of_nat b * (8 / 10) \<longleftrightarrow>
        (of_nat (4 * b) :: rat) < of_nat (5 * currentLength s)"
    by (simp add: field_simps)
  then have "(of_nat (currentLength s) :: rat) > of_nat b * (8 / 10) \<longleftrightarrow>
        5 * currentLength s > 4 * b"
    by (simp only: of_nat_less_iff)
  then show ?thesis by (simp add: targetPage_def)
qed

lemma heading_entry:
  assumes "headerRegex_test (trim line)"
  shows "tempToc (run_lines b (pre @ line # post)) ! length (tempToc (run_lines b pre)) =
           \<lparr>title = toc_title (header_title line), pageIndex = targetPage b (run_lines b pre),
            level = header_level line\<rparr>"
proof -
  define s where "s = run_lines b pre"
  obtain ys where "tempToc (foldl (process_line b) (process_line b s line) post) =
      tempToc (process_line b s line) @ ys"
    using tempToc_foldl_prefix by blast
  then have "tempToc (run_lines b (pre @ line # post)) =
      tempToc s @ \<lparr>title = toc_title (header_title line), pageIndex = targetPage b s,
                    level = header_level line\<rparr> # ys"
    using assms by (simp add: run_lines_append s_def tempToc_step record_heading_def)
  then show ?thesis by (simp add: s_def)
qed

lemma heading_page_exists:
  assumes "headerRegex_test (trim line)"
  shows "pageCounter (run_lines b pre) < length (final_pages (run_lines b (pre @ line # post)))"
proof -
  define s where "s = run_lines b pre"
  define s' where "s' = run_lines b (pre @ line # post)"
  have "s' = foldl (process_line b) (process_line b s line) post"
    by (simp add: s'_def s_def run_lines_append)
  then have "pages_due (process_line b s line) \<le> pages_due s'"
    using pages_due_foldl by simp
  moreover have "pageCounter s + 1 \<le> pages_due (process_line b s line)"
    using assms by (rule pages_due_heading)
  moreover have "pages_due s' \<le> length (final_pages s')"
    unfolding s'_def by (rule final_pages_length [OF newPages_count_run])
  ultimately show ?thesis unfolding s_def s'_def by simp
qed

text \<open>
  A line of 961 letters followed by the heading \<open># H\<close>: the heading is seen with
  961 accumulated characters, more than 80% of 1200, so its entry targets page 1;
  the budget is never exceeded and the whole text becomes page 0.
\<close>

lemma long_line_split:
  "split_lines (replicate 961 0x61 @ LF # ascii ''# H'') = [replicate 961 0x61, ascii ''# H'']"
  by (simp add: split_lines_def split_from_append_LF split_from_single ascii_def)

lemma long_line_no_heading: "\<not> headerRegex_test (trim (replicate 961 0x61))"
  by code_simp

lemma long_line_chunk: "trim (replicate 961 0x61 @ LF # ascii ''# H'' @ [LF]) \<noteq> []"
  by (simp add: trim_Nil_iff ascii_def isWhiteSpace_def)

lemma long_line_pages:
  "processContent (replicate 961 0x61 @ LF # ascii ''# H'') =
     ([replicate 961 0x61 @ LF # ascii ''# H'' @ [LF]],
      [\<lparr>title = ascii ''H'', pageIndex = 1, level = 1\<rparr>])"
proof -
  have h: "headerRegex_test (trim (ascii ''# H''))" by code_simp
  have a: "toc_title (header_title (ascii ''# H'')) = ascii ''H''" by code_simp
  have b: "header_level (ascii ''# H'') = 1" by code_simp
  have c: "length (ascii ''# H'') = 3" by (simp add: ascii_def)
  show ?thesis
    using long_line_chunk
    by (simp add: processContent_def paginate_def long_line_split paginate_lines_def
      run_lines_def process_line_def record_heading_def long_line_no_heading h a b c
      targetPage_nat CHARS_PER_PAGE_def paginator_init_def final_pages_def Let_def)
qed

text \<open>
  What holds for every text and budget: every entry has \<open>pageIndex \<le> pages.length\<close>,
  and the entry of a heading that was seen with at most 80% of the budget accumulated
  has \<open>pageIndex < pages.length\<close>. Only an entry that was pulled forward can point
  past the last page.
\<close>

lemma toc_index_at_most_page_count:
  "(\<forall>e\<in>set (snd (paginate budget text)).
      pageIndex e \<le> length (fst (paginate budget text))) \<and>
   (\<forall>pre line post.
      split_lines text = pre @ line # post \<and> headerRegex_test (trim line) \<and>
      5 * currentLength (run_lines budget pre) \<le> 4 * budget \<longrightarrow>
      pageIndex (snd (paginate budget text) ! length (tempToc (run_lines budget pre)))
        < length (fst (paginate budget text)))"
proof (intro conjI allI impI)
  define s where "s = run_lines budget (split_lines text)"
  have "\<forall>e\<in>set (tempToc s). pageIndex e \<le> pages_due s"
    unfolding s_def run_lines_def
    by (rule toc_bound_foldl) (simp add: paginator_init_def)
  moreover have "pages_due s \<le> length (final_pages s)"
    unfolding s_def by (rule final_pages_length [OF newPages_count_run])
  ultimately show "\<forall>e\<in>set (snd (paginate budget text)).
      pageIndex e \<le> length (fst (paginate budget text))"
    by (fastforce simp: paginate_def paginate_lines_def s_def Let_def)
next
  fix pre line post
  assume h: "split_lines text = pre @ line # post \<and> headerRegex_test (trim line) \<and>
      5 * currentLength (run_lines budget pre) \<le> 4 * budget"
  then have hd: "headerRegex_test (trim line)" by simp
  have "targetPage budget (run_lines budget pre) = pageCounter (run_lines budget pre)"
    using h by (simp add: targetPage_nat)
  then show "pageIndex (snd (paginate budget text) ! length (tempToc (run_lines budget pre)))
        < length (fst (paginate budget text))"
    using h heading_entry [OF hd, of budget pre post] heading_page_exists [OF hd, of budget pre post]
    by (simp add: paginate_def paginate_lines_def Let_def)
qed

text \<open>
  C2. Every entry of the table of contents is to have a \<open>pageIndex\<close> that is a valid
  index into the pages, \<open>pageIndex < pages.length\<close>. The reader itself relies on it:
  the button of an entry jumps through \<open>handlePageChange (pageIndex + 1)\<close>, which
  does nothing for a page number above \<open>pages.length\<close>. The pull-forward rule breaks
  it. On the text of 961 letters followed by the heading \<open># H\<close> the heading is seen
  with 961 characters accumulated, more than 960, and its entry targets page index 1;
  no flush follows, the whole text is the single page of index 0, and the entry points
  past it: whatever the current page is, clicking the entry leaves it unchanged.
\<close>

theorem pulled_heading_entry_out_of_range:
  "snd (processContent (replicate 961 0x61 @ LF # ascii ''# H'')) =
     [\<lparr>title = ascii ''H'', pageIndex = 1, level = 1\<rparr>] \<and>
   length (fst (processContent (replicate 961 0x61 @ LF # ascii ''# H''))) = 1 \<and>
   \<not> list_all
        (\<lambda>e. pageIndex e
               < length (fst (processContent (replicate 961 0x61 @ LF # ascii ''# H''))))
        (snd (processContent (replicate 961 0x61 @ LF # ascii ''# H''))) \<and>
   (\<forall>currentPage.
      toc_onClick (fst (processContent (replicate 961 0x61 @ LF # ascii ''# H''))) currentPage
        \<lparr>title = ascii ''H'', pageIndex = 1, level = 1\<rparr> = currentPage)"
  by (simp add: long_line_pages toc_onClick_def handlePageChange_def)

text \<open>
  C4. When the line after the lines \<open>pre\<close> matches the heading pattern, processing it
  appends exactly one entry to the table of contents. The entry's page index is the
  page counter as it is before the line, or the counter plus one when the length
  accumulated before the line exceeds 80% of the budget (\<open>5 * length > 4 * budget\<close>).
  Whatever lines follow, the final table has this entry at the same position: the
  target depends on the state when the line is seen, not on what the page becomes.
\<close>

theorem heading_target_when_seen:
  assumes "headerRegex_test (trim line)"
  shows "\<exists>e. tempToc (run_lines b (pre @ [line])) = tempToc (run_lines b pre) @ [e] \<and>
             pageIndex e =
               (if 5 * currentLength (run_lines b pre) > 4 * b
                then pageCounter (run_lines b pre) + 1 else pageCounter (run_lines b pre)) \<and>
             (\<forall>post. snd (paginate_lines b (pre @ line # post)) !
                        length (tempToc (run_lines b pre)) = e)"
proof -
  define s where "s = run_lines b pre"
  define e where "e = \<lparr>title = toc_title (header_title line), pageIndex = targetPage b s,
                        level = header_level line\<rparr>"
  have one: "tempToc (run_lines b (pre @ [line])) = tempToc s @ [e]"
    using assms by (simp add: run_lines_append s_def tempToc_step record_heading_def e_def)
  have two: "pageIndex e =
      (if 5 * currentLength s > 4 * b then pageCounter s + 1 else pageCounter s)"
    by (simp add: e_def targetPage_nat)
  have three: "snd (paginate_lines b (pre @ line # post)) ! length (tempToc s) = e" for post
    using heading_entry [OF assms, of b pre post]
    by (simp add: paginate_lines_def Let_def e_def s_def)
  show ?thesis using one two three unfolding s_def by blast
qed

text \<open>
  With budget 5, after the line \<open>aaaaa\<close> the heading \<open># H\<close> is seen with 5 accumulated
  characters, more than 4, on page 0: its entry targets page 1.
\<close>

theorem heading_target_when_seen_witness:
  "headerRegex_test (trim (ascii ''# H'')) \<and>
   5 * currentLength (run_lines 5 [ascii ''aaaaa'']) > 4 * 5 \<and>
   pageCounter (run_lines 5 [ascii ''aaaaa'']) = 0 \<and>
   (\<exists>e. tempToc (run_lines 5 ([ascii ''aaaaa''] @ [ascii ''# H''])) =
          tempToc (run_lines 5 [ascii ''aaaaa'']) @ [e] \<and>
        pageIndex e = 1 \<and>
        (\<forall>post. snd (paginate_lines 5 ([ascii ''aaaaa''] @ ascii ''# H'' # post)) !
                   length (tempToc (run_lines 5 [ascii ''aaaaa''])) = e))"
proof -
  have h: "headerRegex_test (trim (ascii ''# H''))" by code_simp
  have l: "5 * currentLength (run_lines 5 [ascii ''aaaaa'']) > 4 * 5" by code_simp
  have c: "pageCounter (run_lines 5 [ascii ''aaaaa'']) = 0" by code_simp
  show ?thesis
    using heading_target_when_seen [OF h, of 5 "[ascii ''aaaaa'']"] h l c by simp
qed

subsection \<open>The budget\<close>

lemma raw_length_step:
  assumes "LF \<notin> set l"
    and "\<forall>p\<in>set (newPages s). b < raw_length p"
    and "raw_length (currentChunk s) = currentLength s"
  shows "(\<forall>p\<in>set (newPages (process_line b s l)). b < raw_length p) \<and>
         raw_length (currentChunk (process_line b s l)) = currentLength (process_line b s l)"
proof -
  have "filter (\<lambda>c. c \<noteq> LF) l = l" using assms(1) by (auto simp: filter_id_conv)
  then have "raw_length (currentChunk s @ l @ [LF]) = currentLength s + length l"
    using assms(3) by (simp add: raw_length_def)
  then show ?thesis
    using assms(2) by (auto simp: process_line_def Let_def raw_length_def)
qed

lemma raw_length_foldl:
  assumes "\<forall>l\<in>set ls. LF \<notin> set l"
    and "\<forall>p\<in>set (newPages s). b < raw_length p"
    and "raw_length (currentChunk s) = currentLength s"
  shows "\<forall>p\<in>set (newPages (foldl (process_line b) s ls)). b < raw_length p"
  using assms
proof (induction ls arbitrary: s)
  case Nil
  then show ?case by simp
next
  case (Cons l ls)
  have "LF \<notin> set l" using Cons.prems(1) by simp
  from raw_length_step [OF this Cons.prems(2,3)] Cons.prems(1)
  show ?case using Cons.IH [of "process_line b s l"] by simp
qed

lemma butlast_final_pages: "set (butlast (final_pages s)) \<subseteq> set (newPages s)"
  by (auto simp: final_pages_def Let_def placeholder_def dest: in_set_butlastD)

text \<open>
  C10. The budget is a flush threshold and not a bound: every page but the last was
  pushed when the accumulated line length (the length of the page without its line
  feeds) had become greater than the budget; and a text that is a single line longer
  than the budget comes out whole as one page, whatever its length.
\<close>

theorem budget_is_flush_threshold:
  "(\<forall>p\<in>set (butlast (fst (paginate budget text))). budget < raw_length p) \<and>
   (LF \<notin> set line \<and> budget < length line \<longrightarrow>
      fst (paginate budget line) = [line @ [LF]])"
proof
  have "\<forall>l\<in>set (split_lines text). LF \<notin> set l"
    unfolding split_lines_def by (rule split_from_no_LF) simp
  then have "\<forall>p\<in>set (newPages (run_lines budget (split_lines text))). budget < raw_length p"
    unfolding run_lines_def
    by (rule raw_length_foldl) (simp_all add: paginator_init_def raw_length_def)
  then show "\<forall>p\<in>set (butlast (fst (paginate budget text))). budget < raw_length p"
    using butlast_final_pages [of "run_lines budget (split_lines text)"]
    by (auto simp: paginate_def paginate_lines_def Let_def)
next
  show "LF \<notin> set line \<and> budget < length line \<longrightarrow> fst (paginate budget line) = [line @ [LF]]"
  proof
    assume h: "LF \<notin> set line \<and> budget < length line"
    then have "split_lines line = [line]"
      by (simp add: split_lines_def split_from_single)
    then show "fst (paginate budget line) = [line @ [LF]]"
      using h by (simp add: paginate_def paginate_lines_def run_lines_def process_line_def
          paginator_init_def final_pages_def Let_def trim_def)
  qed
qed

text \<open>
  With budget 5: the text \<open>aaaaaa LF bbbbbbb LF cc\<close> gives three pages, the first
  two of raw lengths 6 and 7; the line of ten letters is one page of eleven code units.
\<close>

theorem budget_is_flush_threshold_witness:
  "LF \<notin> set (ascii ''aaaaaaaaaa'') \<and> 5 < length (ascii ''aaaaaaaaaa'') \<and>
   fst (paginate 5 (ascii ''aaaaaaaaaa'')) = [ascii ''aaaaaaaaaa'' @ [LF]] \<and>
   butlast (fst (paginate 5 (ascii ''aaaaaa'' @ [LF] @ ascii ''bbbbbbb'' @ [LF] @ ascii ''cc''))) =
     [ascii ''aaaaaa'' @ [LF], ascii ''bbbbbbb'' @ [LF]] \<and>
   list_all (\<lambda>p. 5 < raw_length p)
     (butlast (fst (paginate 5 (ascii ''aaaaaa'' @ [LF] @ ascii ''bbbbbbb'' @ [LF] @ ascii ''cc''))))"
proof -
  let ?L = "ascii ''aaaaaaaaaa''"
  let ?T = "ascii ''aaaaaa'' @ [LF] @ ascii ''bbbbbbb'' @ [LF] @ ascii ''cc''"
  have a: "LF \<notin> set ?L" by code_simp
  have b: "5 < length ?L" by code_simp
  have c: "butlast (fst (paginate 5 ?T)) = [ascii ''aaaaaa'' @ [LF], ascii ''bbbbbbb'' @ [LF]]"
    by code_simp
  note inst = budget_is_flush_threshold [of 5 ?T ?L]
  have d: "fst (paginate 5 ?L) = [?L @ [LF]]" using inst a b by blast
  have e: "list_all (\<lambda>p. 5 < raw_length p) (butlast (fst (paginate 5 ?T)))"
    using inst unfolding list_all_iff by (rule conjunct1)
  from a b d c e show ?thesis by blast
qed

section \<open>Properties of the PDF layout extractor\<close>

lemma add_item_blank: "trim (str b) = [] \<Longrightarrow> add_item a b = a"
  by (simp add: add_item_def)

lemma foldl_add_item_blanks:
  "\<forall>b\<in>set blanks. trim (str b) = [] \<Longrightarrow> foldl add_item a blanks = a"
  by (induction blanks arbitrary: a) (simp_all add: add_item_blank)

lemma trim_nonblank_nonempty: "trim s \<noteq> [] \<Longrightarrow> s \<noteq> []"
  by (auto simp: trim_def)

lemma add_item_run:
  assumes "trim (str r) \<noteq> []"
  shows "lastY (add_item a r) = currentY r"
    and "\<exists>t. pageText (add_item a r) = t @ str r"
  using assms by (simp_all add: add_item_def Let_def)

lemma add_item_separator:
  assumes "trim (str r) \<noteq> []" and "lastY a \<noteq> - 9999" and "pageText a \<noteq> []"
  shows "pageText (add_item a r) =
           pageText a @
           run_separator (double (lastY a - currentY r)) (last (pageText a)) (hd (str r)) @ str r"
  using assms by (simp add: add_item_def run_separator_def Let_def)

text \<open>
  Two non-blank runs that follow each other on a page, with only blank items between
  them: when the baseline of the first is not \<open>-9999\<close>, what is put between them is
  the separator of the specification, computed from the difference of the baselines
  as the source computes it, in doubles, and from the last character of the first run
  and the first of the second.
\<close>

lemma separator_between_runs:
  assumes r1: "trim (str r1) \<noteq> []" and r2: "trim (str r2) \<noteq> []"
    and blanks: "\<forall>b\<in>set blanks. trim (str b) = []"
    and y: "currentY r1 \<noteq> - 9999"
  shows "pageText (run_items (pre @ r1 # blanks @ [r2])) =
           pageText (run_items (pre @ [r1])) @
           run_separator (double (currentY r1 - currentY r2)) (last (str r1)) (hd (str r2)) @
           str r2"
proof -
  define a where "a = add_item (run_items pre) r1"
  have a1: "run_items (pre @ [r1]) = a"
    by (simp add: run_items_def a_def)
  have "run_items (pre @ r1 # blanks @ [r2]) = add_item (foldl add_item a blanks) r2"
    by (simp add: run_items_def a_def)
  then have a2: "run_items (pre @ r1 # blanks @ [r2]) = add_item a r2"
    using foldl_add_item_blanks [OF blanks] by simp
  have ly: "lastY a = currentY r1"
    unfolding a_def using r1 by (rule add_item_run)
  obtain t where t: "pageText a = t @ str r1"
    unfolding a_def using add_item_run(2) [OF r1] by blast
  have ne: "str r1 \<noteq> []" using r1 by (rule trim_nonblank_nonempty)
  then have "pageText a \<noteq> []" and "last (pageText a) = last (str r1)"
    using t by simp_all
  then show ?thesis
    using add_item_separator [OF r2, of a] y ly a1 a2 by simp
qed

text \<open>
  The difference is the one the source computes. For the baselines 8 and \<open>-2^(-60)\<close>
  the exact difference is above 8, the double difference is 8, and the two runs stay
  on one line with a space between them; for 8 and \<open>-1\<close> the difference is 9 and a
  line feed is put.
\<close>

lemma rounded_difference_same_line:
  "extractPageText
     [\<lparr>str = ascii ''a'', transY = Some 8\<rparr>,
      \<lparr>str = ascii ''b'', transY = Some (- (1 / 2 ^ 60))\<rparr>] = ascii ''a b'' \<and>
   extractPageText
     [\<lparr>str = ascii ''a'', transY = Some 8\<rparr>,
      \<lparr>str = ascii ''b'', transY = Some (- 1)\<rparr>] = ascii ''a'' @ [LF] @ ascii ''b''"
  by code_simp

text \<open>
  C3. Between any two consecutive non-empty runs of a page the extractor is to put
  the separator that the vertical difference \<open>yDiff = lastY - currentY\<close> and the
  boundary characters call for: a paragraph break above 24, a line feed above 8, a
  space below \<open>-8\<close>, and otherwise a space unless a boundary character is CJK or the
  text already ends in a space or a line feed. The code does so except when the
  baseline of the earlier run is exactly \<open>-9999\<close>, the value \<open>lastY\<close> starts from on
  every page to mean that no run was seen yet. After a run at that baseline the next
  run is taken for the first of the page and nothing is put before it: for a run \<open>a\<close>
  at \<open>-9999\<close> followed by a run \<open>b\<close> at \<open>-10100\<close> the difference is 101, the
  separator called for is a paragraph break, and the page text is \<open>ab\<close>.
\<close>

theorem sentinel_baseline_drops_separator:
  "extractPageText
     [\<lparr>str = ascii ''a'', transY = Some (- 9999)\<rparr>,
      \<lparr>str = ascii ''b'', transY = Some (- 10100)\<rparr>] = ascii ''ab'' \<and>
   run_separator (- 9999 - (- 10100)) 0x61 0x62 = [LF, LF]"
  by code_simp

section \<open>Properties of the EPUB spine extractor\<close>

lemma spine_loop_spec:
  "spine_hrefs_decode P opfDir items itemrefs \<Longrightarrow>
   spine_loop P entry opfDir (Some items) itemrefs fullText =
     Inr (fullText @ spine_text P entry opfDir items itemrefs)"
proof (induction itemrefs arbitrary: fullText)
  case Nil
  show ?case by (simp add: spine_text_def)
next
  case (Cons idref itemrefs)
  have rest: "spine_hrefs_decode P opfDir items itemrefs"
    using Cons.prems by (simp add: spine_hrefs_decode_def)
  have dec: "decodeURIComponent P (opfDir @ the (item_href item)) \<noteq> None"
    if "truthy idref" and "find (\<lambda>i. item_id i = idref) items = Some item"
      and "truthy (item_href item)" for item
    using Cons.prems that by (simp add: spine_hrefs_decode_def)
  have tail: "spine_text P entry opfDir items (idref # itemrefs) =
      (case spine_document P entry opfDir items idref of
         None \<Rightarrow> [] | Some d \<Rightarrow> stripHtml P d @ [LF, LF]) @
      spine_text P entry opfDir items itemrefs"
    by (simp add: spine_text_def split: option.split)
  show ?case
  proof (cases "spine_document P entry opfDir items idref")
    case None
    then have "spine_loop P entry opfDir (Some items) (idref # itemrefs) fullText =
        spine_loop P entry opfDir (Some items) itemrefs fullText"
      using dec by (auto simp: spine_document_def split: option.splits if_splits)
    then show ?thesis using None Cons.IH [OF rest] tail by simp
  next
    case (Some d)
    then have "spine_loop P entry opfDir (Some items) (idref # itemrefs) fullText =
        spine_loop P entry opfDir (Some items) itemrefs (fullText @ stripHtml P d @ [LF, LF])"
      by (auto simp: spine_document_def split: option.splits if_splits)
    then show ?thesis using Some Cons.IH [OF rest] tail by simp
  qed
qed

lemma find_by_key_set:
  assumes "distinct (map f xs)" and "distinct (map f ys)" and "set xs = set ys"
  shows "find (\<lambda>i. f i = k) xs = find (\<lambda>i. f i = k) ys"
proof (cases "find (\<lambda>i. f i = k) xs")
  case None
  then have "\<forall>x\<in>set ys. f x \<noteq> k" using assms(3) by (auto simp: find_None_iff)
  then have "find (\<lambda>i. f i = k) ys = None" by (auto simp: find_None_iff)
  with None show ?thesis by simp
next
  case (Some x)
  then have x: "x \<in> set ys" "f x = k"
    using assms(3) by (auto simp: find_Some_iff)
  then obtain y where y: "find (\<lambda>i. f i = k) ys = Some y"
    by (cases "find (\<lambda>i. f i = k) ys") (auto simp: find_None_iff)
  then have "y \<in> set ys" "f y = k" by (auto simp: find_Some_iff)
  then have "y = x"
    using x assms(2) by (auto simp: distinct_map dest: inj_onD)
  with Some y show ?thesis by simp
qed

lemma spine_text_manifest_order:
  assumes "distinct (map item_id items)" and "distinct (map item_id items')"
    and "set items = set items'"
  shows "spine_text P entry opfDir items itemrefs = spine_text P entry opfDir items' itemrefs"
proof -
  have "spine_document P entry opfDir items = spine_document P entry opfDir items'"
    using find_by_key_set [OF assms] by (auto simp: spine_document_def fun_eq_iff)
  then show ?thesis by (simp add: spine_text_def)
qed

text \<open>
  C6, amended. For an archive whose container names a package document that is
  present and has a spine and a manifest, and in which every path the spine reaches
  can be percent-decoded: the extracted text is the text of the content documents the
  spine resolves to, in the order of the itemrefs, each followed by two line feeds,
  and the console stays empty; the extraction fails only when that text is blank. An
  itemref with no idref, with an idref the manifest does not declare, with no href, or
  with an archive entry that is missing or empty contributes nothing: it is skipped
  without any record, and the extraction goes on. The order of the manifest does not
  matter when its ids are distinct.
\<close>

theorem epub_spine_order:
  assumes "truthy (entry (ascii ''META-INF/container.xml''))"
    and "container_full_path P (the (entry (ascii ''META-INF/container.xml''))) = Some opfPath"
    and "opfPath \<noteq> []"
    and "truthy (entry opfPath)"
    and "parse_opf P (the (entry opfPath)) = \<lparr>opf_manifest = Some items, opf_spine = Some itemrefs\<rparr>"
    and "spine_hrefs_decode P (opf_dir opfPath) items itemrefs"
  shows "extractTextFromEpub P (Some entry) =
           (if trim (spine_text P entry (opf_dir opfPath) items itemrefs) = []
            then ([EpubParsingFailed EpubContentEmpty], Inl EpubContentEmpty)
            else ([], Inr (spine_text P entry (opf_dir opfPath) items itemrefs))) \<and>
         (\<forall>items'. distinct (map item_id items) \<and> distinct (map item_id items') \<and>
             set items = set items' \<longrightarrow>
             spine_text P entry (opf_dir opfPath) items' itemrefs =
             spine_text P entry (opf_dir opfPath) items itemrefs)"
proof
  have "epub_body P (Some entry) =
      (if trim (spine_text P entry (opf_dir opfPath) items itemrefs) = []
       then Inl EpubContentEmpty
       else Inr (spine_text P entry (opf_dir opfPath) items itemrefs))"
    using assms(1-5) spine_loop_spec [OF assms(6), of entry "[]"]
    by (simp add: epub_body_def Let_def)
  then show "extractTextFromEpub P (Some entry) =
           (if trim (spine_text P entry (opf_dir opfPath) items itemrefs) = []
            then ([EpubParsingFailed EpubContentEmpty], Inl EpubContentEmpty)
            else ([], Inr (spine_text P entry (opf_dir opfPath) items itemrefs)))"
    by (simp add: extractTextFromEpub_def)
next
  show "\<forall>items'. distinct (map item_id items) \<and> distinct (map item_id items') \<and>
             set items = set items' \<longrightarrow>
             spine_text P entry (opf_dir opfPath) items' itemrefs =
             spine_text P entry (opf_dir opfPath) items itemrefs"
    using spine_text_manifest_order by metis
qed

text \<open>
  The example book: the manifest is declared in the order \<open>c3\<close>, \<open>c2\<close>, \<open>c1\<close>, the
  spine is \<open>c1\<close>, \<open>c2\<close>, \<open>c3\<close>, and \<open>c2\<close> has no archive entry.
\<close>

theorem epub_spine_order_witness:
  "extractTextFromEpub example_platform (Some example_archive) =
     ([], Inr (ascii ''One'' @ [LF, LF] @ ascii ''Three'' @ [LF, LF])) \<and>
   spine_text example_platform example_archive (opf_dir (ascii ''OEBPS/content.opf''))
     [\<lparr>item_id = Some (ascii ''c3''), item_href = Some (ascii ''c3.html'')\<rparr>,
      \<lparr>item_id = Some (ascii ''c2''), item_href = Some (ascii ''c2.html'')\<rparr>,
      \<lparr>item_id = Some (ascii ''c1''), item_href = Some (ascii ''c1.html'')\<rparr>]
     [Some (ascii ''c1''), Some (ascii ''c2''), Some (ascii ''c3'')] =
     ascii ''One'' @ [LF, LF] @ ascii ''Three'' @ [LF, LF] \<and>
   spine_text example_platform example_archive (opf_dir (ascii ''OEBPS/content.opf''))
     [\<lparr>item_id = Some (ascii ''c1''), item_href = Some (ascii ''c1.html'')\<rparr>,
      \<lparr>item_id = Some (ascii ''c2''), item_href = Some (ascii ''c2.html'')\<rparr>,
      \<lparr>item_id = Some (ascii ''c3''), item_href = Some (ascii ''c3.html'')\<rparr>]
     [Some (ascii ''c1''), Some (ascii ''c2''), Some (ascii ''c3'')] =
     ascii ''One'' @ [LF, LF] @ ascii ''Three'' @ [LF, LF]"
proof -
  let ?items = "[\<lparr>item_id = Some (ascii ''c3''), item_href = Some (ascii ''c3.html'')\<rparr>,
      \<lparr>item_id = Some (ascii ''c2''), item_href = Some (ascii ''c2.html'')\<rparr>,
      \<lparr>item_id = Some (ascii ''c1''), item_href = Some (ascii ''c1.html'')\<rparr>]"
  let ?items' = "[\<lparr>item_id = Some (ascii ''c1''), item_href = Some (ascii ''c1.html'')\<rparr>,
      \<lparr>item_id = Some (ascii ''c2''), item_href = Some (ascii ''c2.html'')\<rparr>,
      \<lparr>item_id = Some (ascii ''c3''), item_href = Some (ascii ''c3.html'')\<rparr>]"
  let ?refs = "[Some (ascii ''c1''), Some (ascii ''c2''), Some (ascii ''c3'')]"
  let ?path = "ascii ''OEBPS/content.opf''"
  have h1: "truthy (example_archive (ascii ''META-INF/container.xml''))" by code_simp
  have h2: "container_full_path example_platform
      (the (example_archive (ascii ''META-INF/container.xml''))) = Some ?path"
    by (simp add: example_platform_def)
  have h3: "?path \<noteq> []" by (simp add: ascii_def)
  have h4: "truthy (example_archive ?path)" by code_simp
  have h5: "parse_opf example_platform (the (example_archive ?path)) =
      \<lparr>opf_manifest = Some ?items, opf_spine = Some ?refs\<rparr>"
    by (simp add: example_platform_def)
  have h6: "spine_hrefs_decode example_platform (opf_dir ?path) ?items ?refs" by code_simp
  have t: "spine_text example_platform example_archive (opf_dir ?path) ?items ?refs =
      ascii ''One'' @ [LF, LF] @ ascii ''Three'' @ [LF, LF]"
    by code_simp
  have h7: "trim (spine_text example_platform example_archive (opf_dir ?path) ?items ?refs) \<noteq> []"
    unfolding t by code_simp
  have d: "distinct (map item_id ?items)" "distinct (map item_id ?items')" "set ?items = set ?items'"
    by (auto simp: ascii_def)
  note inst = epub_spine_order [OF h1 h2 h3 h4 h5 h6]
  have a: "extractTextFromEpub example_platform (Some example_archive) =
     ([], Inr (ascii ''One'' @ [LF, LF] @ ascii ''Three'' @ [LF, LF]))"
    using inst h7 t by simp
  have b: "spine_text example_platform example_archive (opf_dir ?path) ?items' ?refs =
      ascii ''One'' @ [LF, LF] @ ascii ''Three'' @ [LF, LF]"
    using inst d t by metis
  from a t b show ?thesis by blast
qed

text \<open>
  C6 as stated fails twice. On the example book the entry of \<open>c2\<close> is missing, the
  item is skipped, and nothing is recorded: the extractor returns the text alone and
  its console is empty; the only thing it ever writes there is the failure of the
  whole extraction. On the book with the malformed href the path of \<open>c2\<close> cannot be
  resolved, and instead of skipping the item the extractor gives up the whole book,
  though \<open>c1\<close> and \<open>c3\<close> are there to read.
\<close>

theorem epub_missing_item_counterexample:
  "example_archive (ascii ''OEBPS/c2.html'') = None \<and>
   extractTextFromEpub example_platform (Some example_archive) =
     ([], Inr (ascii ''One'' @ [LF, LF] @ ascii ''Three'' @ [LF, LF])) \<and>
   extractTextFromEpub malformed_platform (Some example_archive) =
     ([EpubParsingFailed MalformedURI], Inl MalformedURI)"
  by code_simp

section \<open>Properties of the MOBI text extractor\<close>

text \<open>
  C8. When the decoded text has no readable run of 10 characters the extractor falls
  back to the printable ASCII characters of the text, fails when fewer than 100 are
  left, and every text it returns is to carry the advisory notice in front. The code
  falls back and fails as said, but the fallback returns the stripped text as it is,
  without the notice that the other successful path puts in front. A buffer of 101
  bytes \<open>#\<close> decodes to 101 characters \<open>#\<close>, which are not in the class of the
  pattern, so there is no match; all of them are printable, so the fallback text has
  101 characters and is returned.
\<close>

theorem mobi_fallback_without_notice:
  "extractTextFromMobi (\<lambda>bytes :: 8 word list. map ucast bytes) (replicate 101 0x23) =
     ([], Inr (replicate 101 HASH)) \<and>
   \<not> prefix mobi_notice (replicate 101 HASH)"
  by code_simp

text \<open>The other path puts the notice in front; a short fallback text is refused.\<close>

lemma mobi_main_path_notice:
  "regex_matches rawText \<noteq> [] \<Longrightarrow> \<exists>t. mobi_body rawText = Inr (mobi_notice @ t)"
  by (simp add: mobi_body_def Let_def)

lemma mobi_fallback_threshold:
  "regex_matches rawText = [] \<Longrightarrow> length (filter isPrintableAscii rawText) < 100 \<Longrightarrow>
   mobi_body rawText = Inl MobiExtractionFailed"
  by (simp add: mobi_body_def Let_def)

section \<open>Properties of the encoding resolver\<close>

lemma one_percent:
  "(of_nat n :: rat) > of_nat m * (1 / 100) \<longleftrightarrow> m < 100 * n"
proof -
  have "(of_nat n :: rat) > of_nat m * (1 / 100) \<longleftrightarrow> (of_nat m :: rat) < of_nat (100 * n)"
    by (simp add: field_simps)
  then show ?thesis by (simp only: of_nat_less_iff)
qed

text \<open>
  C5. The text returned is the permissive UTF-8 decoding, unless the number of
  replacement characters in it is not zero and exceeds 1% of its length
  (\<open>100 * count > length\<close>); then it is the GB18030 decoding of the same buffer, or
  the UTF-8 decoding again when the GB18030 decoder throws. The console entry written
  just before the GB18030 decoder is made appears exactly in that case. A buffer whose
  UTF-8 decoding has no replacement character gives that decoding and an empty
  console, whatever the GB18030 decoder would return.
\<close>

theorem readTextFile_resolution:
  "snd (readTextFile utf8 gb buffer) =
     (if 0 < replacementCount (utf8 buffer) \<and>
         length (utf8 buffer) < 100 * replacementCount (utf8 buffer)
      then (case gb buffer of Some gbkText \<Rightarrow> gbkText | None \<Rightarrow> utf8 buffer)
      else utf8 buffer) \<and>
   (EncodingIssueDetected \<in> set (fst (readTextFile utf8 gb buffer)) \<longleftrightarrow>
      0 < replacementCount (utf8 buffer) \<and>
      length (utf8 buffer) < 100 * replacementCount (utf8 buffer)) \<and>
   (replacementCount (utf8 buffer) = 0 \<longrightarrow> readTextFile utf8 gb buffer = ([], utf8 buffer))"
  by (simp add: readTextFile_def Let_def one_percent split: option.split)

text \<open>
  The letter \<open>a\<close> decodes cleanly. The GBK bytes \<open>D6 D0\<close> decode as UTF-8 to two
  replacement characters, 2 of 2: the GB18030 decoding U+4E2D is returned, or the
  lossy text when that decoder throws.
\<close>

theorem readTextFile_resolution_witness:
  "replacementCount [0x61 :: jschar] = 0 \<and>
   readTextFile (\<lambda>b :: 8 word list. [0x61]) (\<lambda>b. Some [0x4E2D]) [0x61] = ([], [0x61]) \<and>
   replacementCount [0xFFFD, 0xFFFD :: jschar] = 2 \<and>
   snd (readTextFile (\<lambda>b :: 8 word list. [0xFFFD, 0xFFFD]) (\<lambda>b. Some [0x4E2D]) [0xD6, 0xD0]) = [0x4E2D] \<and>
   snd (readTextFile (\<lambda>b :: 8 word list. [0xFFFD, 0xFFFD]) (\<lambda>b. None) [0xD6, 0xD0]) = [0xFFFD, 0xFFFD]"
proof -
  have a: "replacementCount [0x61 :: jschar] = 0" by (simp add: replacementCount_def)
  have b: "replacementCount [0xFFFD, 0xFFFD :: jschar] = 2" by (simp add: replacementCount_def)
  have c: "readTextFile (\<lambda>b :: 8 word list. [0x61]) (\<lambda>b. Some [0x4E2D]) [0x61] = ([], [0x61])"
    using readTextFile_resolution [of "\<lambda>b :: 8 word list. [0x61]" "\<lambda>b. Some [0x4E2D]" "[0x61]"] a
    by simp
  have d: "snd (readTextFile (\<lambda>b :: 8 word list. [0xFFFD, 0xFFFD]) (\<lambda>b. Some [0x4E2D]) [0xD6, 0xD0]) = [0x4E2D]"
    using readTextFile_resolution [of "\<lambda>b :: 8 word list. [0xFFFD, 0xFFFD]" "\<lambda>b. Some [0x4E2D]" "[0xD6, 0xD0]"] b
    by simp
  have e: "snd (readTextFile (\<lambda>b :: 8 word list. [0xFFFD, 0xFFFD]) (\<lambda>b. None) [0xD6, 0xD0]) = [0xFFFD, 0xFFFD]"
    using readTextFile_resolution [of "\<lambda>b :: 8 word list. [0xFFFD, 0xFFFD]" "\<lambda>b. None" "[0xD6, 0xD0]"] b
    by simp
  from a c b d e show ?thesis by blast
qed

section \<open>Properties of the dispatcher\<close>

lemma epub_body_nonblank: "epub_body P file = Inr text \<Longrightarrow> trim text \<noteq> []"
  by (auto simp: epub_body_def Let_def split: option.splits if_splits sum.splits)

text \<open>
  C7. Whatever the extractors are: when the file passes the size check and the
  extractor it is dispatched to returns a text that is empty or all white space, the
  upload fails with the empty-content error; a book that is added has a text that is
  not blank. The EPUB extractor itself never returns a blank text.
\<close>

theorem blank_text_rejected:
  "(file_size f \<le> MAX_FILE_SIZE \<and> snd (extract_text S f) = Inr (text, fmt) \<and> trim text = [] \<longrightarrow>
      snd (processFile S f) = UploadFailed EmptyContent) \<and>
   (snd (processFile S f) = Added b \<longrightarrow> trim (content b) \<noteq> []) \<and>
   (snd (extractTextFromEpub P file) = Inr text' \<longrightarrow> trim text' \<noteq> [])"
proof (intro conjI impI)
  assume "file_size f \<le> MAX_FILE_SIZE \<and> snd (extract_text S f) = Inr (text, fmt) \<and>
      trim text = []"
  then show "snd (processFile S f) = UploadFailed EmptyContent"
    by (cases "extract_text S f") (simp add: processFile_def)
next
  assume "snd (processFile S f) = Added b"
  then show "trim (content b) \<noteq> []"
    by (auto simp: processFile_def split: if_splits sum.splits prod.splits)
next
  assume "snd (extractTextFromEpub P file) = Inr text'"
  then have "epub_body P file = Inr text'"
    by (auto simp: extractTextFromEpub_def split: sum.splits)
  then show "trim text' \<noteq> []" by (rule epub_body_nonblank)
qed

text \<open>
  A text of two spaces is refused; the text \<open>Hi\<close> is added; the example book's text
  is not blank.
\<close>

theorem blank_text_rejected_witness:
  "file_size (example_file 2) \<le> MAX_FILE_SIZE \<and>
   snd (extract_text (example_services (ascii ''  '')) (example_file 2)) =
     Inr (ascii ''  '', Txt) \<and>
   trim (ascii ''  '') = [] \<and>
   snd (processFile (example_services (ascii ''  '')) (example_file 2)) =
     UploadFailed EmptyContent \<and>
   snd (processFile (example_services (ascii ''Hi'')) (example_file 2)) =
     Added \<lparr>content = ascii ''Hi'', format = Txt, metadata = ()\<rparr> \<and>
   trim (ascii ''Hi'') \<noteq> [] \<and>
   snd (extractTextFromEpub example_platform (Some example_archive)) =
     Inr (ascii ''One'' @ [LF, LF] @ ascii ''Three'' @ [LF, LF]) \<and>
   trim (ascii ''One'' @ [LF, LF] @ ascii ''Three'' @ [LF, LF]) \<noteq> []"
proof -
  have a: "file_size (example_file 2) \<le> MAX_FILE_SIZE"
    by (simp add: example_file_def MAX_FILE_SIZE_def)
  have b: "snd (extract_text (example_services (ascii ''  '')) (example_file 2)) =
      Inr (ascii ''  '', Txt)"
    by code_simp
  have c: "trim (ascii ''  '') = []" by code_simp
  have t: "trim (ascii ''Hi'') = ascii ''Hi''" by code_simp
  have x: "extract_text (example_services (ascii ''Hi'')) (example_file 2) =
      (CallReadText, Inr (ascii ''Hi'', Txt))"
    by code_simp
  have d: "snd (processFile (example_services (ascii ''Hi'')) (example_file 2)) =
     Added \<lparr>content = ascii ''Hi'', format = Txt, metadata = ()\<rparr>"
    using a by (simp add: processFile_def x t) (simp add: example_services_def ascii_def)
  have e: "snd (extractTextFromEpub example_platform (Some example_archive)) =
     Inr (ascii ''One'' @ [LF, LF] @ ascii ''Three'' @ [LF, LF])"
    by code_simp
  have r1: "snd (processFile (example_services (ascii ''  '')) (example_file 2)) =
      UploadFailed EmptyContent"
    using blank_text_rejected [of "example_file 2" "example_services (ascii ''  '')"
        "ascii ''  ''" Txt] a b c by blast
  have r2: "trim (ascii ''Hi'') \<noteq> []"
    using blank_text_rejected [of "example_file 2" "example_services (ascii ''Hi'')" _ _
        "\<lparr>content = ascii ''Hi'', format = Txt, metadata = ()\<rparr>"] d by simp
  have r3: "trim (ascii ''One'' @ [LF, LF] @ ascii ''Three'' @ [LF, LF]) \<noteq> []"
    using blank_text_rejected [of _ _ _ _ _ example_platform "Some example_archive"
        "ascii ''One'' @ [LF, LF] @ ascii ''Three'' @ [LF, LF]"] e by blast
  from a b c r1 d r2 e r3 show ?thesis by blast
qed

text \<open>
  C9. The limit is 50 MiB, 52428800 bytes. For a file whose size exceeds it,
  \<open>processFile\<close> reports the size and returns without calling any service, whatever
  the extractors and the metadata service are.
\<close>

theorem oversized_rejected:
  "MAX_FILE_SIZE = 52428800 \<and>
   (file_size f > 52428800 \<longrightarrow> processFile S f = ([], TooLarge (file_size f)))"
  by (simp add: processFile_def MAX_FILE_SIZE_def)

text \<open>
  A file of 52428801 bytes is refused with its size and no service is called, though
  every extractor of the example services would succeed; a file of exactly 52428800
  bytes is read and added.
\<close>

theorem oversized_rejected_witness:
  "file_size (example_file 52428801) > 52428800 \<and>
   processFile (example_services (ascii ''Hi'')) (example_file 52428801) =
     ([], TooLarge 52428801) \<and>
   processFile (example_services (ascii ''Hi'')) (example_file 52428800) =
     ([CallReadText, CallMetadata],
      Added \<lparr>content = ascii ''Hi'', format = Txt, metadata = ()\<rparr>)"
proof -
  have a: "file_size (example_file 52428801) > 52428800" by (simp add: example_file_def)
  have t: "trim (ascii ''Hi'') = ascii ''Hi''" by code_simp
  have x: "extract_text (example_services (ascii ''Hi'')) (example_file 52428800) =
      (CallReadText, Inr (ascii ''Hi'', Txt))"
    by (simp add: extract_text_def example_file_def example_services_def endsWith_def
        toLowerCase_def ascii_def suffix_Cons)
  have b: "processFile (example_services (ascii ''Hi'')) (example_file 52428800) =
     ([CallReadText, CallMetadata],
      Added \<lparr>content = ascii ''Hi'', format = Txt, metadata = ()\<rparr>)"
    by (simp add: processFile_def x t)
      (simp add: example_services_def example_file_def MAX_FILE_SIZE_def ascii_def)
  have c: "processFile (example_services (ascii ''Hi'')) (example_file 52428801) =
      ([], TooLarge 52428801)"
    using oversized_rejected [of "example_file 52428801" "example_services (ascii ''Hi'')"] a
    by (simp add: example_file_def)
  from a c b show ?thesis by blast
qed

end
